theory Spec2Isabelle
  imports Main
begin

section \<open>Reminder scheduling and login of \<open>src/index.tsx\<close>\<close>

text \<open>
  The theory embeds the \<open>ProfilePage\<close> component (lines 891 to 978 of
  \<open>src/index.tsx\<close>): its two effects, \<open>addReminder\<close> and \<open>removeReminder\<close>, together
  with the pieces of the browser they talk to (the clock, the table of pending
  timeouts, one \<open>localStorage\<close> item), and \<open>LoginPage.handleSubmit\<close> with
  \<open>App.handleLogin\<close> (lines 1500 to 1505 and 1597 to 1600).

  Conventions of the model.
  \<^item> An instant is a number of milliseconds on the local time line, as a \<open>Date\<close> holds it
    once the offset to UTC is added. The offset is taken to be constant over the instants
    involved (no daylight-saving switch), so local days are the multiples of \<open>msPerDay\<close>.
    Instants stay inside the range a \<open>Date\<close> can hold.
  \<^item> A JavaScript number that the program computes is an \<open>int option\<close>, \<open>None\<close> being
    \<open>NaN\<close>; a \<open>Date\<close> is an \<open>instant option\<close>, \<open>None\<close> being the invalid date.
  \<^item> Strings are lists of 8-bit characters, read as code units below 256.
  \<^item> Every read of the clock is an input of the operation that makes it.
  \<^item> A handler or effect runs on the state of the latest render, from start to end
    without another event in between.
\<close>

subsection \<open>Values, objects and the stored item\<close>

text \<open>
  What \<open>JSON.parse\<close> can return, with integer numbers only (the numbers the program
  writes are \<open>Date.now()\<close> stamps and timer handles). An object is its list of own
  properties in insertion order; a parsed object has no key twice, and a read takes the
  first entry under a key. The reminders the component keeps in state are always
  objects (an object literal in \<open>addReminder\<close>, a spread \<open>{...r, timeoutId}\<close> in the
  load effect), so the state holds property lists.
\<close>

datatype json =
    JNull
  | JBool bool
  | JNum int
  | JStr string
  | JArr "json list"
  | JObj "(string \<times> json) list"

type_synonym object = "(string \<times> json) list"

text \<open>\<open>o.k\<close> on an object: \<open>None\<close> is \<open>undefined\<close>.\<close>

definition getProp :: "object \<Rightarrow> string \<Rightarrow> json option" where
  "getProp ob k = map_of ob k"

text \<open>
  \<open>{...r, k: v}\<close>: the own properties of \<open>r\<close> in their order, then \<open>k\<close> set; a
  property \<open>k\<close> that \<open>r\<close> already has keeps its place and takes the new value.
\<close>

fun assign :: "string \<Rightarrow> json \<Rightarrow> object \<Rightarrow> object" where
  "assign k v [] = [(k, v)]"
| "assign k v (p # ps) = (if fst p = k then (k, v) # ps else p # assign k v ps)"

text \<open>\<open>({k, ...rest}) => rest\<close>: the own properties other than \<open>k\<close>, in their order.\<close>

definition omit :: "string \<Rightarrow> object \<Rightarrow> object" where
  "omit k ob = filter (\<lambda>p. fst p \<noteq> k) ob"

text \<open>
  The \<open>localStorage\<close> item \<open>reminders_<currentUser>\<close>, by what the load effect can do with
  it: \<open>Falsy\<close> when \<open>getItem\<close> gives \<open>null\<close> or the empty string, \<open>Unparsable\<close> when
  \<open>JSON.parse\<close> throws on the text, \<open>Text j\<close> when the text denotes the value \<open>j\<close>.
  \<open>JSON.stringify\<close> followed by \<open>JSON.parse\<close> is the identity on values of type \<open>json\<close>,
  so writing a value is modelled as storing \<open>Text\<close> of it.
\<close>

datatype item = Falsy | Unparsable | Text json

subsection \<open>Dates\<close>

type_synonym instant = int

definition msPerMinute :: int where
  "msPerMinute = 60000"

definition msPerHour :: int where
  "msPerHour = 3600000"

definition msPerDay :: int where
  "msPerDay = 86400000"

text \<open>The first instant of the local day an instant lies in.\<close>

definition startOfDay :: "instant \<Rightarrow> instant" where
  "startOfDay t = t - t mod msPerDay"

text \<open>
  \<open>d.setHours(hours, minutes, sec, ms)\<close>: the day of \<open>d\<close> with the time within the day
  replaced by \<open>hours * msPerHour + minutes * msPerMinute + sec * 1000 + ms\<close>; values
  outside \<open>0..23\<close> and \<open>0..59\<close> carry into the neighbouring days, and \<open>NaN\<close> in an
  argument gives the invalid date.
\<close>

definition setHours :: "instant \<Rightarrow> int option \<Rightarrow> int option \<Rightarrow> int \<Rightarrow> int \<Rightarrow> instant option" where
  "setHours d hours minutes sec ms =
     (case hours of
        None \<Rightarrow> None
      | Some h \<Rightarrow>
          (case minutes of
             None \<Rightarrow> None
           | Some m \<Rightarrow> Some (startOfDay d + h * msPerHour + m * msPerMinute + sec * 1000 + ms)))"

text \<open>\<open>d.setDate(d.getDate() + 1)\<close>: the same time within the next local day.\<close>

definition setDateNext :: "instant \<Rightarrow> instant" where
  "setDateNext d = d + msPerDay"

subsection \<open>Reading hours and minutes from the time string\<close>

text \<open>\<open>s.split(c)\<close> for a one-character separator; the result is never empty.\<close>

fun splitOn :: "char \<Rightarrow> string \<Rightarrow> string list" where
  "splitOn c [] = [[]]"
| "splitOn c (x # xs) =
     (if x = c then [] # splitOn c xs
      else (case splitOn c xs of [] \<Rightarrow> [[x]] | p # ps \<Rightarrow> (x # p) # ps))"

definition isDigit :: "char \<Rightarrow> bool" where
  "isDigit c = (48 \<le> (of_char c :: nat) \<and> (of_char c :: nat) \<le> 57)"

definition digitValue :: "char \<Rightarrow> int" where
  "digitValue c = int (of_char c) - 48"

text \<open>
  \<open>Number(s)\<close> on the strings of decimal digits, the empty string included (it gives
  \<open>0\<close>); leading zeros do not change the value. Every other string is taken to \<open>NaN\<close>:
  that is what \<open>Number\<close> gives for letters and stray punctuation, while for signs, blanks,
  fractions, exponents and radix prefixes JavaScript would compute a number. The value
  of a time input has none of these in its hour and minute fields. Digit strings are
  read exactly (the values met here are far below \<open>2 ^ 53\<close>).
\<close>

definition Number :: "string \<Rightarrow> int option" where
  "Number s =
     (if list_all isDigit s then Some (foldl (\<lambda>a c. 10 * a + digitValue c) 0 s) else None)"

text \<open>
  \<open>const [hours, minutes] = t.split(':').map(Number)\<close>. A missing second part leaves
  \<open>minutes\<close> undefined, which \<open>setHours\<close> converts to \<open>NaN\<close>.
\<close>

definition hoursMinutes :: "string \<Rightarrow> int option \<times> int option" where
  "hoursMinutes t =
     (case map Number (splitOn (CHR '':'') t) of
        [] \<Rightarrow> (None, None)
      | [h] \<Rightarrow> (h, None)
      | h # m # _ \<Rightarrow> (h, m))"

text \<open>
  The statements shared by \<open>addReminder\<close> (lines 952 to 959) and by the callback of the
  load effect (lines 910 to 920), which are the same up to the names:
  \<^verbatim>\<open>
  const now = new Date();
  const reminderDate = new Date();
  reminderDate.setHours(hours, minutes, 0, 0);
  if (reminderDate < now) reminderDate.setDate(reminderDate.getDate() + 1);
  const timeout = reminderDate.getTime() - now.getTime();
  \<close>
  \<open>now\<close> is the first read of the clock and \<open>fresh\<close> the second, the one \<open>reminderDate\<close>
  starts from. A comparison with the invalid date is false.
\<close>

definition reminderDate :: "instant \<Rightarrow> instant \<Rightarrow> string \<Rightarrow> instant option" where
  "reminderDate now fresh t =
     (case hoursMinutes t of
        (hours, minutes) \<Rightarrow>
          (case setHours fresh hours minutes 0 0 of
             None \<Rightarrow> None
           | Some d \<Rightarrow> if d < now then Some (setDateNext d) else Some d))"

definition timeoutFor :: "instant \<Rightarrow> instant \<Rightarrow> string \<Rightarrow> int option" where
  "timeoutFor now fresh t = map_option (\<lambda>d. d - now) (reminderDate now fresh t)"

subsection \<open>The page: component state and the browser around it\<close>

text \<open>
  A pending timeout: the delay handed to \<open>setTimeout\<close> (\<open>None\<close> is \<open>NaN\<close>) and the
  name its callback closed over, which determines the text \<open>Time to take your <name>!\<close>
  that the callback passes to \<open>alert\<close> and \<open>speak\<close>.
\<close>

record timer =
  delay :: "int option"
  label :: "json option"

text \<open>
  \<open>reminders\<close>, \<open>medName\<close> and \<open>medTime\<close> are the three \<open>useState\<close> cells of
  \<open>ProfilePage\<close>. \<open>timers\<close> is the browser's table of pending timeouts by handle and
  \<open>nextHandle\<close> the handle the next \<open>setTimeout\<close> returns. \<open>storage\<close> is the item
  \<open>reminders_<currentUser>\<close>. \<open>notified\<close> lists the names announced so far and
  \<open>console\<close> the messages given to \<open>console.error\<close>.
\<close>

record page =
  reminders :: "object list"
  medName :: string
  medTime :: string
  timers :: "(nat \<times> timer) list"
  nextHandle :: nat
  storage :: item
  notified :: "json option list"
  console :: "string list"

text \<open>\<open>setTimeout(callback, delay)\<close>: a new pending entry under a handle not used before.\<close>

definition setTimeout :: "timer \<Rightarrow> page \<Rightarrow> nat \<times> page" where
  "setTimeout tm s =
     (nextHandle s,
      s\<lparr>timers := timers s @ [(nextHandle s, tm)], nextHandle := Suc (nextHandle s)\<rparr>)"

text \<open>
  \<open>clearTimeout(v)\<close>: the pending entry whose handle is the number \<open>v\<close> is dropped; a
  handle that is not pending (already fired, already cleared) changes nothing. Values
  that are not numbers are left without effect here; the program only ever passes the
  number it got from \<open>setTimeout\<close>.
\<close>

definition clearTimeout :: "json option \<Rightarrow> page \<Rightarrow> page" where
  "clearTimeout v s =
     (case v of
        Some (JNum h) \<Rightarrow> s\<lparr>timers := filter (\<lambda>p. int (fst p) \<noteq> h) (timers s)\<rparr>
      | _ \<Rightarrow> s)"

text \<open>The handles of the pending timeouts.\<close>

definition pending :: "page \<Rightarrow> nat list" where
  "pending s = map fst (timers s)"

subsection \<open>The operations of \<open>ProfilePage\<close>\<close>

text \<open>
  \<open>addReminder\<close> (lines 948 to 970). \<open>now\<close> and \<open>fresh\<close> are the two \<open>new Date()\<close>
  reads and \<open>stamp\<close> is the \<open>Date.now()\<close> that becomes the id. An empty string is
  falsy, so the guard returns before anything is scheduled.
\<close>

definition addReminder :: "instant \<Rightarrow> instant \<Rightarrow> int \<Rightarrow> page \<Rightarrow> page" where
  "addReminder now fresh stamp s =
     (if medName s = [] \<or> medTime s = [] then s
      else
        (case setTimeout
                \<lparr>delay = timeoutFor now fresh (medTime s), label = Some (JStr (medName s))\<rparr> s of
           (timeoutId, s') \<Rightarrow>
             s'\<lparr>reminders := reminders s @
                    [[(''id'', JNum stamp), (''name'', JStr (medName s)),
                      (''time'', JStr (medTime s)), (''timeoutId'', JNum (int timeoutId))]],
                medName := [], medTime := []\<rparr>))"

text \<open>
  \<open>removeReminder\<close> (lines 972 to 978): \<open>find\<close> gives the first reminder whose id is
  strictly equal to the number \<open>id'\<close> (the parameter \<open>id\<close>), its timeout is cleared, and \<open>filter\<close> keeps the
  reminders with another id.
\<close>

definition removeReminder :: "int \<Rightarrow> page \<Rightarrow> page" where
  "removeReminder id' s =
     (let s' = (case find (\<lambda>r. getProp r ''id'' = Some (JNum id')) (reminders s) of
                  Some reminderToRemove \<Rightarrow> clearTimeout (getProp reminderToRemove ''timeoutId'') s
                | None \<Rightarrow> s)
      in s'\<lparr>reminders := filter (\<lambda>r. getProp r ''id'' \<noteq> Some (JNum id')) (reminders s)\<rparr>)"

text \<open>
  The persist effect (lines 935 to 942): every reminder without its \<open>timeoutId\<close>, written
  as one array. \<open>writable\<close> says whether \<open>setItem\<close> succeeds; when it throws, the
  \<open>catch\<close> logs and the item stays as it was.
\<close>

definition remindersToStore :: "object list \<Rightarrow> json" where
  "remindersToStore rs = JArr (map (\<lambda>r. JObj (omit ''timeoutId'' r)) rs)"

definition persistEffect :: "bool \<Rightarrow> page \<Rightarrow> page" where
  "persistEffect writable s =
     (if writable then s\<lparr>storage := Text (remindersToStore (reminders s))\<rparr>
      else s\<lparr>console := console s @ [''Failed to save reminders to localStorage'']\<rparr>)"

text \<open>
  The callback of \<open>parsedReminders.map\<close> in the load effect (lines 909 to 927), for one
  parsed element \<open>r\<close>. \<open>r.time.split\<close> is evaluated first and throws a \<open>TypeError\<close>
  unless \<open>r\<close> is an object whose \<open>time\<close> is a string; no timeout has been set for this
  element then.
\<close>

datatype error = TypeError

definition reschedule :: "instant \<Rightarrow> instant \<Rightarrow> json \<Rightarrow> page \<Rightarrow> (error + object) \<times> page" where
  "reschedule now fresh r s =
     (case r of
        JObj ob \<Rightarrow>
          (case getProp ob ''time'' of
             Some (JStr t) \<Rightarrow>
               (case setTimeout \<lparr>delay = timeoutFor now fresh t, label = getProp ob ''name''\<rparr> s of
                  (timeoutId, s') \<Rightarrow> (Inr (assign ''timeoutId'' (JNum (int timeoutId)) ob), s'))
           | _ \<Rightarrow> (Inl TypeError, s))
      | _ \<Rightarrow> (Inl TypeError, s))"

text \<open>
  \<open>parsedReminders.map(...)\<close>: the callback runs on the elements from left to right, the
  one at index \<open>i\<close> making the two clock reads \<open>clock i\<close>. An exception stops the \<open>map\<close>;
  the timeouts set for the earlier elements stay pending.
\<close>

fun rescheduleAll ::
  "(nat \<Rightarrow> instant \<times> instant) \<Rightarrow> nat \<Rightarrow> json list \<Rightarrow> page \<Rightarrow> (error + object list) \<times> page" where
  "rescheduleAll clock i [] s = (Inr [], s)"
| "rescheduleAll clock i (r # rs) s =
     (case reschedule (fst (clock i)) (snd (clock i)) r s of
        (Inl e, s') \<Rightarrow> (Inl e, s')
      | (Inr r', s') \<Rightarrow>
          (case rescheduleAll clock (Suc i) rs s' of
             (Inl e, s'') \<Rightarrow> (Inl e, s'')
           | (Inr rs', s'') \<Rightarrow> (Inr (r' # rs'), s'')))"

text \<open>
  The load effect (lines 903 to 933). A parsed value that is not an array has no \<open>map\<close>
  method, which is a \<open>TypeError\<close> as well. Every exception ends in the \<open>catch\<close>, which
  logs; \<open>setReminders\<close> is reached only when the whole \<open>map\<close> succeeded.
\<close>

definition logParseFailure :: "page \<Rightarrow> page" where
  "logParseFailure s = s\<lparr>console := console s @ [''Failed to parse reminders from localStorage'']\<rparr>"

definition loadEffect :: "(nat \<Rightarrow> instant \<times> instant) \<Rightarrow> page \<Rightarrow> page" where
  "loadEffect clock s =
     (case storage s of
        Falsy \<Rightarrow> s
      | Unparsable \<Rightarrow> logParseFailure s
      | Text parsed \<Rightarrow>
          (case parsed of
             JArr parsedReminders \<Rightarrow>
               (case rescheduleAll clock 0 parsedReminders s of
                  (Inr remindersWithTimeouts, s') \<Rightarrow> s'\<lparr>reminders := remindersWithTimeouts\<rparr>
                | (Inl e, s') \<Rightarrow> logParseFailure s')
           | _ \<Rightarrow> logParseFailure s))"

text \<open>
  A pending timeout fires: it leaves the table and its callback announces the name it
  closed over (lines 921 to 925 and 960 to 964). The callback sets no new timeout and
  does not touch \<open>reminders\<close>. A handle that is not pending cannot fire.
\<close>

definition fire :: "nat \<Rightarrow> page \<Rightarrow> page" where
  "fire h s =
     (case map_of (timers s) h of
        None \<Rightarrow> s
      | Some tm \<Rightarrow>
          s\<lparr>timers := filter (\<lambda>p. fst p \<noteq> h) (timers s), notified := notified s @ [label tm]\<rparr>)"

text \<open>
  Leaving the page and coming back: \<open>MainApp\<close> renders \<open>ProfilePage\<close> only while the
  current page is the profile (line 1542), so the component is unmounted and mounted
  anew. Its \<open>useState\<close> cells start over (lines 899 to 901); neither effect returns a
  cleanup, so the pending timeouts stay, and so does the stored item. The load effect
  then runs on the new mount.
\<close>

definition remount :: "page \<Rightarrow> page" where
  "remount s = s\<lparr>reminders := [], medName := [], medTime := []\<rparr>"

text \<open>
  What can happen to the page, one event at a time: the inputs are edited, a reminder
  is added or removed, the load effect or the persist effect runs, a pending timeout
  fires. Each event carries what the environment supplies to it (clock reads, whether
  \<open>setItem\<close> succeeds, the handle that fires). The page starts with the \<open>useState\<close>
  defaults, no pending timeout and some stored item.
\<close>

datatype event =
    Typed string string
  | Added instant instant int
  | Removed int
  | Loaded "nat \<Rightarrow> instant \<times> instant"
  | Persisted bool
  | Fired nat

fun step :: "event \<Rightarrow> page \<Rightarrow> page" where
  "step (Typed n t) s = s\<lparr>medName := n, medTime := t\<rparr>"
| "step (Added now fresh stamp) s = addReminder now fresh stamp s"
| "step (Removed i) s = removeReminder i s"
| "step (Loaded clock) s = loadEffect clock s"
| "step (Persisted writable) s = persistEffect writable s"
| "step (Fired h) s = fire h s"

definition run :: "event list \<Rightarrow> page \<Rightarrow> page" where
  "run es s = foldl (\<lambda>s' e. step e s') s es"

definition isFired :: "event \<Rightarrow> bool" where
  "isFired e = (case e of Fired h \<Rightarrow> True | _ \<Rightarrow> False)"

definition initial :: "item \<Rightarrow> page" where
  "initial st =
     \<lparr>reminders = [], medName = [], medTime = [], timers = [], nextHandle = 1,
      storage = st, notified = [], console = []\<rparr>"

subsection \<open>Login\<close>

text \<open>
  \<open>App\<close> keeps the logged-in user in a state cell and in the \<open>localStorage\<close> item
  \<open>currentUser\<close>; \<open>LoginPage\<close> keeps the two input fields.
\<close>

record app =
  currentUser :: "string option"
  storedUser :: "string option"

record loginPage =
  username :: string
  password :: string

text \<open>
  The code units below 256 that \<open>String.prototype.trim\<close> removes: tab, line feed,
  vertical tab, form feed, carriage return, space and no-break space.
\<close>

definition isWhiteSpace :: "char \<Rightarrow> bool" where
  "isWhiteSpace c = ((of_char c :: nat) \<in> {9, 10, 11, 12, 13, 32, 160})"

definition trim :: "string \<Rightarrow> string" where
  "trim s = rev (dropWhile isWhiteSpace (rev (dropWhile isWhiteSpace s)))"

text \<open>\<open>handleLogin\<close> (lines 1597 to 1600).\<close>

definition handleLogin :: "string \<Rightarrow> app \<Rightarrow> app" where
  "handleLogin u a = a\<lparr>currentUser := Some u, storedUser := Some u\<rparr>"

text \<open>
  \<open>handleSubmit\<close> (lines 1500 to 1505), with \<open>onLogin\<close> bound to \<open>handleLogin\<close> as
  \<open>App\<close> binds it. A non-empty string is truthy.
\<close>

definition handleSubmit :: "loginPage \<Rightarrow> app \<Rightarrow> app" where
  "handleSubmit lp a =
     (if trim (username lp) \<noteq> [] then handleLogin (trim (username lp)) a else a)"

subsection \<open>Notions used in the statements\<close>

text \<open>
  The value a time input holds for hour \<open>h\<close> and minute \<open>m\<close>: two decimal digits, a
  colon, two decimal digits.
\<close>

definition digitChar :: "nat \<Rightarrow> char" where
  "digitChar d = char_of (48 + d)"

definition twoDigits :: "nat \<Rightarrow> string" where
  "twoDigits n = [digitChar (n div 10), digitChar (n mod 10)]"

definition timeValue :: "nat \<Rightarrow> nat \<Rightarrow> string" where
  "timeValue h m = twoDigits h @ CHR '':'' # twoDigits m"

text \<open>The instant at \<open>h:m\<close> (seconds and milliseconds zero) of the local day \<open>t\<close> lies in.\<close>

definition atTime :: "instant \<Rightarrow> nat \<Rightarrow> nat \<Rightarrow> instant" where
  "atTime t h m = startOfDay t + int h * msPerHour + int m * msPerMinute"

text \<open>
  The two clock reads of one scheduling computation are in order and less than a minute
  apart (they are two consecutive statements).
\<close>

definition consecutive :: "instant \<Rightarrow> instant \<Rightarrow> bool" where
  "consecutive now fresh = (now \<le> fresh \<and> fresh - now < msPerMinute)"

text \<open>An object whose \<open>time\<close> is a string, and that string.\<close>

definition hasTime :: "object \<Rightarrow> bool" where
  "hasTime ob = (case getProp ob ''time'' of Some (JStr t) \<Rightarrow> True | _ \<Rightarrow> False)"

definition timeOf :: "object \<Rightarrow> string" where
  "timeOf ob = (case getProp ob ''time'' of Some (JStr t) \<Rightarrow> t | _ \<Rightarrow> [])"

text \<open>What identifies a reminder across a restart: its id, name and time.\<close>

definition idNameTime :: "object \<Rightarrow> json option \<times> json option \<times> json option" where
  "idNameTime r = (getProp r ''id'', getProp r ''name'', getProp r ''time'')"

text \<open>
  A reminder as the interface \<open>Reminder\<close> declares it has the four properties
  \<open>id\<close>, \<open>name\<close>, \<open>time\<close>, \<open>timeoutId\<close>; a durable record has the first three.
\<close>

definition isReminder :: "object \<Rightarrow> bool" where
  "isReminder r = (map fst r = [''id'', ''name'', ''time'', ''timeoutId''])"

definition isRecord :: "json \<Rightarrow> bool" where
  "isRecord e = (case e of JObj ob \<Rightarrow> map fst ob = [''id'', ''name'', ''time''] | _ \<Rightarrow> False)"

definition mentionsHandle :: "json \<Rightarrow> bool" where
  "mentionsHandle e = (case e of JObj ob \<Rightarrow> ''timeoutId'' \<in> set (map fst ob) | _ \<Rightarrow> False)"

definition written :: "item \<Rightarrow> json list" where
  "written st = (case st of Text (JArr es) \<Rightarrow> es | _ \<Rightarrow> [])"

text \<open>
  The stored item is as the program itself leaves it: missing, unreadable, or an array
  of durable records.
\<close>

definition ownItem :: "item \<Rightarrow> bool" where
  "ownItem st =
     (case st of
        Falsy \<Rightarrow> True
      | Unparsable \<Rightarrow> True
      | Text j \<Rightarrow> (case j of JArr es \<Rightarrow> list_all isRecord es | _ \<Rightarrow> False))"

text \<open>The pending timeouts whose handle a reminder holds in \<open>timeoutId\<close>.\<close>

definition timersOf :: "page \<Rightarrow> object \<Rightarrow> (nat \<times> timer) list" where
  "timersOf s r = filter (\<lambda>p. getProp r ''timeoutId'' = Some (JNum (int (fst p)))) (timers s)"

definition oneTimerEach :: "page \<Rightarrow> bool" where
  "oneTimerEach s = list_all (\<lambda>r. length (timersOf s r) = 1) (reminders s)"

definition uniqueIds :: "page \<Rightarrow> bool" where
  "uniqueIds s = distinct (map (\<lambda>r. getProp r ''id'') (reminders s))"

text \<open>
  Two invariants of the page. \<open>ownPage\<close>: every reminder has the four properties of
  the interface and the stored item is the program's own. \<open>armed\<close>: the pending handles
  are distinct and older than the next one, and the reminders hold distinct handles that
  are pending.
\<close>

definition ownPage :: "page \<Rightarrow> bool" where
  "ownPage s = (list_all isReminder (reminders s) \<and> ownItem (storage s))"

definition armed :: "page \<Rightarrow> bool" where
  "armed s =
     (distinct (pending s) \<and> (\<forall>h \<in> set (pending s). h < nextHandle s) \<and>
      distinct (map (\<lambda>r. getProp r ''timeoutId'') (reminders s)) \<and>
      (\<forall>r \<in> set (reminders s). \<exists>h \<in> set (pending s). getProp r ''timeoutId'' = Some (JNum (int h))))"

subsection \<open>An example page\<close>

text \<open>
  The page after \<open>Aspirin\<close> at 09:00 was added at 08:00 of some day, on an empty
  collection with nothing stored.
\<close>

definition aspirin :: page where
  "aspirin = addReminder 28800000 28800000 1700000000000
               ((initial Falsy)\<lparr>medName := ''Aspirin'', medTime := ''09:00''\<rparr>)"

text \<open>
  Two durable records as a restart finds them, the page of that restart, and a clock
  for its load effect that reads 10:00 plus one millisecond per element.
\<close>

definition stored2 :: "object list" where
  "stored2 =
     [[(''id'', JNum 1700000000000), (''name'', JStr ''Aspirin''), (''time'', JStr ''09:00'')],
      [(''id'', JNum 1700000005000), (''name'', JStr ''Vitamin D''), (''time'', JStr ''21:30'')]]"

definition restart :: page where
  "restart = initial (Text (JArr (map JObj stored2)))"

definition tenOClock :: "nat \<Rightarrow> instant \<times> instant" where
  "tenOClock j = (36000000 + int j, 36000000 + int j)"

text \<open>
  \<open>Aspirin\<close> at 09:00 is typed in and added at 08:00, and then its timeout fires.
\<close>

definition scenario :: "event list" where
  "scenario = [Typed ''Aspirin'' ''09:00'', Added 28800000 28800000 1700000000000, Fired 1]"

text \<open>
  The example page after its reminders were persisted, the page was left, and it is
  visited again at 08:30, half an hour before the reminder is due.
\<close>

definition halfPastEight :: "nat \<Rightarrow> instant \<times> instant" where
  "halfPastEight j = (30600000 + int j, 30600000 + int j)"

definition returned :: page where
  "returned = loadEffect halfPastEight (remount (persistEffect True aspirin))"

section \<open>Properties\<close>

subsection \<open>Reading a time value\<close>

lemma of_char_digitChar: "d < 10 \<Longrightarrow> (of_char (digitChar d) :: nat) = 48 + d"
  by (simp add: digitChar_def)

lemma isDigit_digitChar: "d < 10 \<Longrightarrow> isDigit (digitChar d)"
  by (simp add: isDigit_def of_char_digitChar)

lemma digitValue_digitChar: "d < 10 \<Longrightarrow> digitValue (digitChar d) = int d"
  by (simp add: digitValue_def of_char_digitChar)

lemma digitChar_not_colon: "d < 10 \<Longrightarrow> digitChar d \<noteq> CHR '':''"
proof
  assume "d < 10" and "digitChar d = CHR '':''"
  then have "(of_char (digitChar d) :: nat) = of_char (CHR '':'')" by simp
  with \<open>d < 10\<close> show False by (simp add: of_char_digitChar)
qed

lemma Number_twoDigits: "n < 100 \<Longrightarrow> Number (twoDigits n) = Some (int n)"
proof -
  assume n: "n < 100"
  have "10 * int (n div 10) + int (n mod 10) = int n" by arith
  with n show ?thesis
    by (simp add: Number_def twoDigits_def isDigit_digitChar digitValue_digitChar)
qed

lemma splitOn_timeValue:
  "h < 100 \<Longrightarrow> m < 100 \<Longrightarrow> splitOn (CHR '':'') (timeValue h m) = [twoDigits h, twoDigits m]"
  by (simp add: timeValue_def twoDigits_def digitChar_not_colon)

lemma hoursMinutes_timeValue:
  "h < 100 \<Longrightarrow> m < 100 \<Longrightarrow> hoursMinutes (timeValue h m) = (Some (int h), Some (int m))"
  by (simp add: hoursMinutes_def splitOn_timeValue Number_twoDigits)

subsection \<open>The next occurrence\<close>

lemma startOfDay_bounds: "startOfDay t \<le> t \<and> t < startOfDay t + msPerDay"
  by (simp add: startOfDay_def msPerDay_def)

lemma startOfDay_next:
  assumes "now \<le> fresh" "fresh - now < msPerMinute"
  shows "startOfDay fresh = startOfDay now \<or>
         (startOfDay fresh = startOfDay now + msPerDay \<and> startOfDay now + msPerDay - msPerMinute < now)"
proof -
  define a where "a = now mod 86400000"
  define k where "k = fresh - now"
  have a: "0 \<le> a" "a < 86400000" by (simp_all add: a_def)
  have k: "0 \<le> k" "k < 60000" using assms by (simp_all add: k_def msPerMinute_def)
  have fresh: "fresh = (now div 86400000) * 86400000 + (a + k)"
    by (simp add: a_def k_def)
  show ?thesis
  proof (cases "a + k < 86400000")
    case True
    have "fresh mod 86400000 = a + k"
      using a k True by (subst fresh) (simp add: mod_pos_pos_trivial)
    then show ?thesis
      by (simp add: startOfDay_def msPerDay_def a_def k_def)
  next
    case False
    have "fresh = (now div 86400000 + 1) * 86400000 + (a + k - 86400000)"
      by (subst fresh) (simp add: algebra_simps)
    then have "fresh mod 86400000 = (a + k - 86400000) mod 86400000"
      by (metis mod_mult_self4 mult.commute)
    also have "\<dots> = a + k - 86400000"
      by (rule mod_pos_pos_trivial) (use a k False in linarith)+
    finally have m: "fresh mod 86400000 = a + k - 86400000" .
    have "startOfDay fresh = startOfDay now + msPerDay"
      using m by (simp add: startOfDay_def msPerDay_def a_def k_def)
    moreover have "startOfDay now + msPerDay - msPerMinute < now"
      using False k by (simp add: startOfDay_def msPerDay_def msPerMinute_def a_def)
    ultimately show ?thesis by simp
  qed
qed

lemma atTime_bound:
  assumes "h < 24" "m < 60"
  shows "startOfDay t \<le> atTime t h m \<and> atTime t h m \<le> startOfDay t + msPerDay - msPerMinute"
proof -
  have "int h \<le> 23" "int m \<le> 59" using assms by simp_all
  then have "int h * 3600000 + int m * 60000 \<le> 23 * 3600000 + 59 * 60000"
    by (intro add_mono mult_right_mono) simp_all
  then show ?thesis
    by (simp add: atTime_def msPerHour_def msPerMinute_def msPerDay_def)
qed

lemma reminderDate_valid:
  assumes "h < 24" "m < 60" "consecutive now fresh"
  shows "reminderDate now fresh (timeValue h m) =
           Some (if atTime now h m < now then atTime now h m + msPerDay else atTime now h m)"
proof -
  have hm: "hoursMinutes (timeValue h m) = (Some (int h), Some (int m))"
    using assms by (simp add: hoursMinutes_timeValue)
  have set: "setHours fresh (Some (int h)) (Some (int m)) 0 0 = Some (atTime fresh h m)"
    by (simp add: setHours_def atTime_def)
  have rd: "reminderDate now fresh (timeValue h m) =
              Some (if atTime fresh h m < now then atTime fresh h m + msPerDay else atTime fresh h m)"
    by (simp add: reminderDate_def hm set setDateNext_def)
  have reads: "now \<le> fresh" "fresh - now < msPerMinute"
    using assms(3) by (simp_all add: consecutive_def)
  from startOfDay_next [OF reads] show ?thesis
  proof
    assume "startOfDay fresh = startOfDay now"
    then have "atTime fresh h m = atTime now h m" by (simp add: atTime_def)
    with rd show ?thesis by simp
  next
    assume nxt: "startOfDay fresh = startOfDay now + msPerDay \<and> startOfDay now + msPerDay - msPerMinute < now"
    then have eq: "atTime fresh h m = atTime now h m + msPerDay" by (simp add: atTime_def)
    have "atTime now h m < now" using atTime_bound [OF assms(1,2), of now] nxt by linarith
    moreover have "\<not> atTime fresh h m < now"
      using atTime_bound [OF assms(1,2), of fresh] nxt startOfDay_bounds [of now] by linarith
    ultimately show ?thesis using rd eq by simp
  qed
qed

subsection \<open>The load callback on objects\<close>

lemma hasTime_D: "hasTime ob \<Longrightarrow> getProp ob ''time'' = Some (JStr (timeOf ob))"
  by (auto simp: hasTime_def timeOf_def split: option.splits json.splits)

lemma reschedule_object:
  assumes "hasTime ob"
  shows "reschedule now fresh (JObj ob) s =
           (Inr (assign ''timeoutId'' (JNum (int (nextHandle s))) ob),
            s\<lparr>timers := timers s @
                 [(nextHandle s, \<lparr>delay = timeoutFor now fresh (timeOf ob), label = getProp ob ''name''\<rparr>)],
              nextHandle := Suc (nextHandle s)\<rparr>)"
  using hasTime_D [OF assms] by (simp add: reschedule_def setTimeout_def)

lemma rescheduleAll_objects:
  assumes "list_all hasTime obs"
  shows "rescheduleAll clock i (map JObj obs) s =
           (Inr (map (\<lambda>j. assign ''timeoutId'' (JNum (int (nextHandle s + j))) (obs ! j)) [0..<length obs]),
            s\<lparr>timers := timers s @
                 map (\<lambda>j. (nextHandle s + j,
                            \<lparr>delay = timeoutFor (fst (clock (i + j))) (snd (clock (i + j))) (timeOf (obs ! j)),
                             label = getProp (obs ! j) ''name''\<rparr>)) [0..<length obs],
              nextHandle := nextHandle s + length obs\<rparr>)"
  using assms
proof (induction obs arbitrary: i s)
  case Nil
  then show ?case by simp
next
  case (Cons ob obs)
  then have ob: "hasTime ob" and obs: "list_all hasTime obs" by simp_all
  show ?case
    by (simp add: reschedule_object [OF ob] Cons.IH [OF obs] map_upt_Suc add_ac del: upt_Suc)
qed

subsection \<open>Adding a reminder\<close>

lemma timeoutFor_valid:
  assumes "h < 24" "m < 60" "consecutive now fresh"
  shows "timeoutFor now fresh (timeValue h m) =
           Some ((if atTime now h m < now then atTime now h m + msPerDay else atTime now h m) - now)"
  by (simp add: timeoutFor_def reminderDate_valid [OF assms])

lemma timers_addReminder:
  assumes "medName s \<noteq> []" "medTime s \<noteq> []"
  shows "timers (addReminder now fresh stamp s) =
           timers s @ [(nextHandle s, \<lparr>delay = timeoutFor now fresh (medTime s),
                                       label = Some (JStr (medName s))\<rparr>)]"
  using assms by (simp add: addReminder_def setTimeout_def)

lemma timeValue_not_empty: "timeValue h m \<noteq> []"
  by (simp add: timeValue_def twoDigits_def)

text \<open>
  C1. When \<open>addReminder\<close> runs with a non-empty name and the time value of \<open>h:m\<close>, it
  sets exactly one new timeout, and the delay counted from \<open>now\<close> ends today at \<open>h:m\<close>
  if that instant has not passed at \<open>now\<close>, and tomorrow at \<open>h:m\<close> if it has.
\<close>

theorem addReminder_next_occurrence:
  assumes "medName s \<noteq> []" and "medTime s = timeValue h m" and "h < 24" and "m < 60"
    and "consecutive now fresh"
  shows "\<exists>d. timers (addReminder now fresh stamp s) =
               timers s @ [(nextHandle s, \<lparr>delay = Some d, label = Some (JStr (medName s))\<rparr>)] \<and>
             (\<not> atTime now h m < now \<longrightarrow> now + d = atTime now h m) \<and>
             (atTime now h m < now \<longrightarrow> now + d = atTime now h m + msPerDay)"
  using assms
  by (simp add: timers_addReminder timeValue_not_empty timeoutFor_valid)

theorem addReminder_next_occurrence_witness:
  "timers (addReminder 28800000 28800000 28800000
             ((initial Falsy)\<lparr>medName := ''Aspirin'', medTime := ''09:00''\<rparr>)) =
     [(1, \<lparr>delay = Some 3600000, label = Some (JStr ''Aspirin'')\<rparr>)] \<and>
   timers (addReminder 36000000 36000000 36000000
             ((initial Falsy)\<lparr>medName := ''Vitamin D'', medTime := ''09:00''\<rparr>)) =
     [(1, \<lparr>delay = Some 82800000, label = Some (JStr ''Vitamin D'')\<rparr>)]"
proof -
  have tv: "timeValue 9 0 = ''09:00''" by code_simp
  show ?thesis
    using addReminder_next_occurrence
            [of "(initial Falsy)\<lparr>medName := ''Aspirin'', medTime := ''09:00''\<rparr>" 9 0
                28800000 28800000 28800000]
          addReminder_next_occurrence
            [of "(initial Falsy)\<lparr>medName := ''Vitamin D'', medTime := ''09:00''\<rparr>" 9 0
                36000000 36000000 36000000]
    by (simp add: tv initial_def atTime_def startOfDay_def consecutive_def
          msPerDay_def msPerHour_def msPerMinute_def)
qed

lemma aspirin_page:
  "aspirin =
     \<lparr>reminders = [[(''id'', JNum 1700000000000), (''name'', JStr ''Aspirin''),
                     (''time'', JStr ''09:00''), (''timeoutId'', JNum 1)]],
      medName = [], medTime = [],
      timers = [(1, \<lparr>delay = Some 3600000, label = Some (JStr ''Aspirin'')\<rparr>)],
      nextHandle = 2, storage = Falsy, notified = [], console = []\<rparr>"
  by (simp add: aspirin_def addReminder_def setTimeout_def initial_def timeoutFor_def
        reminderDate_def hoursMinutes_def Number_def isDigit_def digitValue_def setHours_def
        startOfDay_def setDateNext_def msPerDay_def msPerHour_def msPerMinute_def)

text \<open>
  C7. A submission with an empty name or an empty time leaves the whole page as it
  was: no timeout is set, the reminders and both input fields are unchanged.
\<close>

theorem addReminder_rejects_empty:
  assumes "medName s = [] \<or> medTime s = []"
  shows "addReminder now fresh stamp s = s"
  using assms by (simp add: addReminder_def)

theorem addReminder_rejects_empty_witness:
  "addReminder 28800000 28800000 28800000 ((initial Falsy)\<lparr>medName := ''Aspirin''\<rparr>) =
     (initial Falsy)\<lparr>medName := ''Aspirin''\<rparr> \<and>
   addReminder 28800000 28800000 28800000 ((initial Falsy)\<lparr>medTime := ''09:00''\<rparr>) =
     (initial Falsy)\<lparr>medTime := ''09:00''\<rparr>"
  using addReminder_rejects_empty [of "(initial Falsy)\<lparr>medName := ''Aspirin''\<rparr>" 28800000 28800000 28800000]
        addReminder_rejects_empty [of "(initial Falsy)\<lparr>medTime := ''09:00''\<rparr>" 28800000 28800000 28800000]
  by (simp add: initial_def)



subsection \<open>Removing a reminder\<close>

lemma find_by_id_None:
  assumes "\<forall>r \<in> set rs. getProp r ''id'' \<noteq> Some (JNum i)"
  shows "find (\<lambda>r. getProp r ''id'' = Some (JNum i)) rs = None"
  using assms by (simp add: find_None_iff)

lemma filter_by_id_all:
  assumes "\<forall>r \<in> set rs. getProp r ''id'' \<noteq> Some (JNum i)"
  shows "filter (\<lambda>r. getProp r ''id'' \<noteq> Some (JNum i)) rs = rs"
  using assms by (simp add: filter_id_conv)

text \<open>
  C6. Removing an id that no reminder has leaves the whole page as it was: the same
  reminders in the same order, the same pending timeouts, nothing logged.
\<close>

theorem removeReminder_unknown_id:
  assumes "\<forall>r \<in> set (reminders s). getProp r ''id'' \<noteq> Some (JNum i)"
  shows "removeReminder i s = s"
  using assms by (simp add: removeReminder_def find_by_id_None filter_by_id_all)

theorem removeReminder_unknown_id_witness:
  "removeReminder 5 aspirin = aspirin \<and> reminders aspirin \<noteq> [] \<and> timers aspirin \<noteq> []"
  using removeReminder_unknown_id [of aspirin 5]
  by (simp add: aspirin_page getProp_def)

lemma find_by_id_unique:
  assumes "distinct (map (\<lambda>r. getProp r ''id'') rs)" and "r \<in> set rs"
    and "getProp r ''id'' = Some (JNum i)"
  shows "find (\<lambda>x. getProp x ''id'' = Some (JNum i)) rs = Some r"
  using assms by (induction rs) (auto simp: image_iff)

lemma filter_by_id_unique:
  assumes "distinct (map (\<lambda>r. getProp r ''id'') rs)" and "r \<in> set rs"
    and "getProp r ''id'' = Some (JNum i)"
  shows "filter (\<lambda>x. getProp x ''id'' \<noteq> Some (JNum i)) rs = removeAll r rs"
proof -
  have "\<And>x. x \<in> set rs \<Longrightarrow> (getProp x ''id'' \<noteq> Some (JNum i)) = (r \<noteq> x)"
    using assms by (auto simp: distinct_map inj_on_def)
  then show ?thesis
    by (simp add: removeAll_filter_not_eq cong: filter_cong)
qed

text \<open>
  What \<open>removeReminder\<close> does clear. With unique ids, removing the id of a reminder
  in the collection clears the timeout whose handle the reminder holds in \<open>timeoutId\<close>
  and takes the reminder out: afterwards that handle is not pending (whether or not it
  was pending before), no reminder has that id, and the other reminders and timeouts are
  as they were. Timeouts set for the same reminder under another handle are among these
  others.
\<close>

lemma removeReminder_clears_stored_handle:
  assumes "uniqueIds s" and "r \<in> set (reminders s)"
    and "getProp r ''id'' = Some (JNum i)"
    and "getProp r ''timeoutId'' = Some (JNum (int h))"
  shows "timersOf (removeReminder i s) r = [] \<and>
         h \<notin> set (pending (removeReminder i s)) \<and>
         timers (removeReminder i s) = filter (\<lambda>p. fst p \<noteq> h) (timers s) \<and>
         reminders (removeReminder i s) = removeAll r (reminders s) \<and>
         (\<forall>x \<in> set (reminders (removeReminder i s)). getProp x ''id'' \<noteq> Some (JNum i))"
proof -
  have u: "distinct (map (\<lambda>r. getProp r ''id'') (reminders s))"
    using assms(1) by (simp add: uniqueIds_def)
  have f: "find (\<lambda>x. getProp x ''id'' = Some (JNum i)) (reminders s) = Some r"
    by (rule find_by_id_unique [OF u assms(2,3)])
  have t: "timers (removeReminder i s) = filter (\<lambda>p. fst p \<noteq> h) (timers s)"
    by (simp add: removeReminder_def f assms(4) clearTimeout_def)
  have rs: "reminders (removeReminder i s) = filter (\<lambda>x. getProp x ''id'' \<noteq> Some (JNum i)) (reminders s)"
    by (simp add: removeReminder_def f assms(4) clearTimeout_def)
  have "timersOf (removeReminder i s) r = []"
    by (auto simp: timersOf_def t assms(4) filter_empty_conv)
  moreover have "h \<notin> set (pending (removeReminder i s))"
    by (auto simp: pending_def t)
  moreover have "reminders (removeReminder i s) = removeAll r (reminders s)"
    by (simp add: rs filter_by_id_unique [OF u assms(2,3)])
  moreover have "\<forall>x \<in> set (reminders (removeReminder i s)). getProp x ''id'' \<noteq> Some (JNum i)"
    by (simp add: rs)
  ultimately show ?thesis using t by simp
qed

lemma removeReminder_clears_stored_handle_example:
  "timers aspirin \<noteq> [] \<and>
   timers (removeReminder 1700000000000 aspirin) = [] \<and>
   reminders (removeReminder 1700000000000 aspirin) = [] \<and>
   timers (removeReminder 1700000000000 (fire 1 aspirin)) = [] \<and>
   reminders (removeReminder 1700000000000 (fire 1 aspirin)) = []"
  using removeReminder_clears_stored_handle
          [of aspirin "hd (reminders aspirin)" 1700000000000 1]
        removeReminder_clears_stored_handle
          [of "fire 1 aspirin" "hd (reminders aspirin)" 1700000000000 1]
  by (simp add: aspirin_page uniqueIds_def getProp_def fire_def)

lemma returned_page:
  "returned =
     \<lparr>reminders = [[(''id'', JNum 1700000000000), (''name'', JStr ''Aspirin''),
                     (''time'', JStr ''09:00''), (''timeoutId'', JNum 2)]],
      medName = [], medTime = [],
      timers = [(1, \<lparr>delay = Some 3600000, label = Some (JStr ''Aspirin'')\<rparr>),
                (2, \<lparr>delay = Some 1800000, label = Some (JStr ''Aspirin'')\<rparr>)],
      nextHandle = 3,
      storage = Text (JArr [JObj [(''id'', JNum 1700000000000), (''name'', JStr ''Aspirin''),
                                  (''time'', JStr ''09:00'')]]),
      notified = [], console = []\<rparr>"
  by (simp add: returned_def remount_def aspirin_page persistEffect_def remindersToStore_def
        omit_def loadEffect_def reschedule_def setTimeout_def getProp_def halfPastEight_def
        timeoutFor_def reminderDate_def hoursMinutes_def Number_def isDigit_def digitValue_def
        setHours_def startOfDay_def setDateNext_def msPerDay_def msPerHour_def msPerMinute_def)

text \<open>
  C5. Removing a reminder does not always leave it without a pending timeout.
  \<open>Aspirin\<close> at 09:00 is added at 08:00, which sets timeout 1; the page is left and
  visited again at 08:30, where the load effect sets timeout 2 for the stored reminder
  while timeout 1 stays pending. The ids are unique and the reminder holds handle 2.
  \<open>removeReminder\<close> with its id empties the collection and clears timeout 2 only:
  timeout 1 is still pending, and when it fires it announces the removed reminder.
\<close>

theorem removed_reminder_keeps_a_timer:
  "reminders returned =
     [[(''id'', JNum 1700000000000), (''name'', JStr ''Aspirin''),
       (''time'', JStr ''09:00''), (''timeoutId'', JNum 2)]] \<and>
   uniqueIds returned \<and>
   pending returned = [1, 2] \<and>
   reminders (removeReminder 1700000000000 returned) = [] \<and>
   timers (removeReminder 1700000000000 returned) =
     [(1, \<lparr>delay = Some 3600000, label = Some (JStr ''Aspirin'')\<rparr>)] \<and>
   notified (fire 1 (removeReminder 1700000000000 returned)) = [Some (JStr ''Aspirin'')]"
  by (simp add: returned_page uniqueIds_def pending_def removeReminder_def clearTimeout_def
        getProp_def fire_def)

text \<open>
  Unique ids are kept by \<open>removeReminder\<close>, and by \<open>addReminder\<close> when the stamp is
  not the id of a reminder already there.
\<close>

lemma uniqueIds_added:
  assumes "uniqueIds s" and "\<forall>r \<in> set (reminders s). getProp r ''id'' \<noteq> Some (JNum stamp)"
  shows "uniqueIds (addReminder now fresh stamp s)"
  using assms
  by (auto simp: uniqueIds_def addReminder_def setTimeout_def getProp_def)

lemma uniqueIds_removed: "uniqueIds s \<Longrightarrow> uniqueIds (removeReminder i s)"
  by (simp add: uniqueIds_def removeReminder_def distinct_map_filter)

subsection \<open>Objects\<close>

lemma getProp_assign:
  "getProp (assign k v ob) k' = (if k' = k then Some v else getProp ob k')"
  by (induction ob) (auto simp: getProp_def)

lemma getProp_omit:
  "getProp (omit k ob) k' = (if k' = k then None else getProp ob k')"
  by (induction ob) (auto simp: getProp_def omit_def)

lemma omit_assign: "omit k (assign k v ob) = omit k ob"
  by (induction ob) (auto simp: omit_def)

lemma keys_assign_new:
  "k \<notin> set (map fst ob) \<Longrightarrow> map fst (assign k v ob) = map fst ob @ [k]"
  by (induction ob) auto

lemma keys_omit: "map fst (omit k ob) = filter (\<lambda>x. x \<noteq> k) (map fst ob)"
  by (simp add: omit_def filter_map comp_def)

lemma hasTime_omit: "hasTime (omit ''timeoutId'' r) = hasTime r"
  by (simp add: hasTime_def getProp_omit)

lemma timeOf_omit: "timeOf (omit ''timeoutId'' r) = timeOf r"
  by (simp add: timeOf_def getProp_omit)

lemma idNameTime_reloaded:
  "idNameTime (assign ''timeoutId'' v (omit ''timeoutId'' r)) = idNameTime r"
  by (simp add: idNameTime_def getProp_assign getProp_omit)

subsection \<open>Loading\<close>

lemma loadEffect_objects:
  assumes "storage s = Text (JArr (map JObj obs))" and "list_all hasTime obs"
  shows "loadEffect clock s =
           s\<lparr>timers := timers s @
                 map (\<lambda>j. (nextHandle s + j,
                            \<lparr>delay = timeoutFor (fst (clock j)) (snd (clock j)) (timeOf (obs ! j)),
                             label = getProp (obs ! j) ''name''\<rparr>)) [0..<length obs],
              nextHandle := nextHandle s + length obs,
              reminders :=
                 map (\<lambda>j. assign ''timeoutId'' (JNum (int (nextHandle s + j))) (obs ! j))
                   [0..<length obs]\<rparr>"
  by (simp add: loadEffect_def assms(1) rescheduleAll_objects [OF assms(2)])

text \<open>
  C4. When the stored item is an array of \<open>N\<close> records whose \<open>time\<close> is a string,
  the load effect sets exactly \<open>N\<close> new timeouts, one per record in order, and leaves the
  pending ones alone. For a record with the time value of \<open>h:m\<close>, the delay of its
  timeout, counted from the instant \<open>now\<close> its callback read at load time, ends today
  at \<open>h:m\<close> if that has not passed at \<open>now\<close> and tomorrow at \<open>h:m\<close> otherwise; the
  record's id (the instant it was created) does not enter.
\<close>

theorem loadEffect_schedules_each:
  assumes "storage s = Text (JArr (map JObj obs))" and "list_all hasTime obs"
  shows "length (timers (loadEffect clock s)) = length (timers s) + length obs \<and>
         take (length (timers s)) (timers (loadEffect clock s)) = timers s \<and>
         (\<forall>j h m. j < length obs \<and> timeOf (obs ! j) = timeValue h m \<and> h < 24 \<and> m < 60 \<and>
                  consecutive (fst (clock j)) (snd (clock j)) \<longrightarrow>
            (\<exists>d. timers (loadEffect clock s) ! (length (timers s) + j) =
                   (nextHandle s + j, \<lparr>delay = Some d, label = getProp (obs ! j) ''name''\<rparr>) \<and>
                 fst (clock j) + d =
                   (if atTime (fst (clock j)) h m < fst (clock j)
                    then atTime (fst (clock j)) h m + msPerDay
                    else atTime (fst (clock j)) h m)))"
proof -
  note le = loadEffect_objects [OF assms, of clock]
  have len: "length (timers (loadEffect clock s)) = length (timers s) + length obs"
    by (simp add: le)
  have old: "take (length (timers s)) (timers (loadEffect clock s)) = timers s"
    by (simp add: le)
  have each: "\<exists>d. timers (loadEffect clock s) ! (length (timers s) + j) =
                   (nextHandle s + j, \<lparr>delay = Some d, label = getProp (obs ! j) ''name''\<rparr>) \<and>
                 fst (clock j) + d =
                   (if atTime (fst (clock j)) h m < fst (clock j)
                    then atTime (fst (clock j)) h m + msPerDay
                    else atTime (fst (clock j)) h m)"
    if j: "j < length obs" and t: "timeOf (obs ! j) = timeValue h m"
      and h: "h < 24" and m: "m < 60" and c: "consecutive (fst (clock j)) (snd (clock j))"
    for j h m
  proof -
    have "timers (loadEffect clock s) ! (length (timers s) + j) =
            (nextHandle s + j,
             \<lparr>delay = timeoutFor (fst (clock j)) (snd (clock j)) (timeOf (obs ! j)),
              label = getProp (obs ! j) ''name''\<rparr>)"
      using j by (simp add: le nth_append)
    then show ?thesis
      by (simp add: t timeoutFor_valid [OF h m c])
  qed
  show ?thesis using len old each by blast
qed

theorem loadEffect_schedules_each_witness:
  "length (timers (loadEffect tenOClock restart)) = 2 \<and>
   timers (loadEffect tenOClock restart) ! 0 =
     (1, \<lparr>delay = Some 82800000, label = Some (JStr ''Aspirin'')\<rparr>) \<and>
   timers (loadEffect tenOClock restart) ! 1 =
     (2, \<lparr>delay = Some 41399999, label = Some (JStr ''Vitamin D'')\<rparr>)"
proof -
  have tv: "timeValue 9 0 = ''09:00''" "timeValue 21 30 = ''21:30''" by code_simp+
  have a1: "storage restart = Text (JArr (map JObj stored2))"
    by (simp add: restart_def initial_def)
  have a2: "list_all hasTime stored2"
    by (simp add: stored2_def hasTime_def getProp_def)
  have r: "timers restart = []" "nextHandle restart = 1"
    by (simp_all add: restart_def initial_def)
  have c: "fst (tenOClock 0) = 36000000" "fst (tenOClock (Suc 0)) = 36000001"
    "consecutive (fst (tenOClock 0)) (snd (tenOClock 0))"
    "consecutive (fst (tenOClock (Suc 0))) (snd (tenOClock (Suc 0)))"
    by (simp_all add: tenOClock_def consecutive_def msPerMinute_def)
  have t: "timeOf (stored2 ! 0) = timeValue 9 0" "timeOf (stored2 ! Suc 0) = timeValue 21 30"
    by (simp_all add: stored2_def timeOf_def getProp_def tv)
  note th = loadEffect_schedules_each [OF a1 a2, of tenOClock]
  note each = th [THEN conjunct2, THEN conjunct2, rule_format]
  from th have len: "length (timers (loadEffect tenOClock restart)) = 2"
    by (simp add: r stored2_def)
  have "\<exists>d. timers (loadEffect tenOClock restart) ! (length (timers restart) + 0) =
                   (nextHandle restart + 0, \<lparr>delay = Some d, label = getProp (stored2 ! 0) ''name''\<rparr>) \<and>
                 fst (tenOClock 0) + d =
                   (if atTime (fst (tenOClock 0)) 9 0 < fst (tenOClock 0)
                    then atTime (fst (tenOClock 0)) 9 0 + msPerDay
                    else atTime (fst (tenOClock 0)) 9 0)"
    using each [of 0 9 0] t(1) c(3) by (simp add: stored2_def)
  then have e0: "timers (loadEffect tenOClock restart) ! 0 =
                   (1, \<lparr>delay = Some 82800000, label = Some (JStr ''Aspirin'')\<rparr>)"
    by (simp add: r c stored2_def getProp_def atTime_def startOfDay_def
          msPerDay_def msPerHour_def msPerMinute_def)
  have "\<exists>d. timers (loadEffect tenOClock restart) ! (length (timers restart) + Suc 0) =
                   (nextHandle restart + Suc 0, \<lparr>delay = Some d, label = getProp (stored2 ! Suc 0) ''name''\<rparr>) \<and>
                 fst (tenOClock (Suc 0)) + d =
                   (if atTime (fst (tenOClock (Suc 0))) 21 30 < fst (tenOClock (Suc 0))
                    then atTime (fst (tenOClock (Suc 0))) 21 30 + msPerDay
                    else atTime (fst (tenOClock (Suc 0))) 21 30)"
    using each [of "Suc 0" 21 30] t(2) c(4) by (simp add: stored2_def)
  then have e1: "timers (loadEffect tenOClock restart) ! 1 =
                   (2, \<lparr>delay = Some 41399999, label = Some (JStr ''Vitamin D'')\<rparr>)"
    by (simp add: r c stored2_def getProp_def atTime_def startOfDay_def
          msPerDay_def msPerHour_def msPerMinute_def)
  show ?thesis using len e0 e1 by simp
qed

subsection \<open>Persisting and loading again\<close>

lemma storage_persistEffect:
  "storage (persistEffect True s) = Text (JArr (map JObj (map (omit ''timeoutId'') (reminders s))))"
  by (simp add: persistEffect_def remindersToStore_def comp_def)

lemma omit_idem: "omit k (omit k ob) = omit k ob"
  by (simp add: omit_def)

lemma list_all_hasTime_omit:
  "list_all hasTime (map (omit ''timeoutId'') rs) = list_all hasTime rs"
  by (simp add: list_all_iff hasTime_omit)

text \<open>
  C3. Let the reminders of a page all have a string as \<open>time\<close>, let the persist effect
  write them, and let the load effect run on any page holding the written item (the page
  after a restart, say). The reminders it sets have, in the same order, the same id, name
  and time and the same properties apart from \<open>timeoutId\<close>; their \<open>timeoutId\<close> are
  the handles of the timeouts that this load set.
\<close>

theorem persist_then_load_round_trip:
  assumes "list_all hasTime (reminders s)"
    and "storage p = storage (persistEffect True s)"
  shows "map idNameTime (reminders (loadEffect clock p)) = map idNameTime (reminders s) \<and>
         map (omit ''timeoutId'') (reminders (loadEffect clock p)) =
           map (omit ''timeoutId'') (reminders s) \<and>
         map (\<lambda>r. getProp r ''timeoutId'') (reminders (loadEffect clock p)) =
           map (\<lambda>j. Some (JNum (int (nextHandle p + j)))) [0..<length (reminders s)] \<and>
         pending (loadEffect clock p) =
           pending p @ map (\<lambda>j. nextHandle p + j) [0..<length (reminders s)]"
proof -
  let ?obs = "map (omit ''timeoutId'') (reminders s)"
  have st: "storage p = Text (JArr (map JObj ?obs))"
    using assms(2) by (simp add: storage_persistEffect)
  have ht: "list_all hasTime ?obs"
    using assms(1) by (simp add: list_all_hasTime_omit)
  note le = loadEffect_objects [OF st ht, of clock]
  have a: "map idNameTime (reminders (loadEffect clock p)) = map idNameTime (reminders s)"
    by (rule nth_equalityI) (simp_all add: le idNameTime_reloaded)
  have b: "map (omit ''timeoutId'') (reminders (loadEffect clock p)) = ?obs"
    by (rule nth_equalityI) (simp_all add: le omit_assign omit_idem)
  have c: "map (\<lambda>r. getProp r ''timeoutId'') (reminders (loadEffect clock p)) =
             map (\<lambda>j. Some (JNum (int (nextHandle p + j)))) [0..<length (reminders s)]"
    by (rule nth_equalityI) (simp_all add: le getProp_assign)
  have d: "pending (loadEffect clock p) =
             pending p @ map (\<lambda>j. nextHandle p + j) [0..<length (reminders s)]"
    by (simp add: pending_def le comp_def)
  show ?thesis using a b c d by simp
qed

theorem persist_then_load_round_trip_witness:
  "map idNameTime (reminders (loadEffect tenOClock (initial (storage (persistEffect True aspirin))))) =
     [(Some (JNum 1700000000000), Some (JStr ''Aspirin''), Some (JStr ''09:00''))] \<and>
   map idNameTime (reminders aspirin) =
     [(Some (JNum 1700000000000), Some (JStr ''Aspirin''), Some (JStr ''09:00''))] \<and>
   map (\<lambda>r. getProp r ''timeoutId'')
     (reminders (loadEffect tenOClock (initial (storage (persistEffect True aspirin))))) =
     [Some (JNum 1)] \<and>
   pending (loadEffect tenOClock (initial (storage (persistEffect True aspirin)))) = [1]"
proof -
  have i: "nextHandle (initial (storage (persistEffect True aspirin))) = 1"
          "pending (initial (storage (persistEffect True aspirin))) = []"
          "storage (initial (storage (persistEffect True aspirin))) = storage (persistEffect True aspirin)"
    by (simp_all add: initial_def pending_def)
  have r: "reminders aspirin =
             [[(''id'', JNum 1700000000000), (''name'', JStr ''Aspirin''),
               (''time'', JStr ''09:00''), (''timeoutId'', JNum 1)]]"
    by (simp add: aspirin_page)
  have h: "list_all hasTime (reminders aspirin)"
    by (simp add: r hasTime_def getProp_def)
  show ?thesis
    using persist_then_load_round_trip [OF h i(3), of tenOClock]
    by (simp add: i r idNameTime_def getProp_def)
qed

subsection \<open>What the operations leave alone\<close>

lemma reschedule_cases:
  assumes "reschedule now fresh r s = (res, s')"
  shows "(res = Inl TypeError \<and> s' = s) \<or>
         (\<exists>ob tm. r = JObj ob \<and>
                  res = Inr (assign ''timeoutId'' (JNum (int (nextHandle s))) ob) \<and>
                  s' = s\<lparr>timers := timers s @ [(nextHandle s, tm)],
                         nextHandle := Suc (nextHandle s)\<rparr>)"
  using assms
  by (auto simp: reschedule_def setTimeout_def split: json.splits option.splits)

lemma rescheduleAll_frame:
  assumes "rescheduleAll clock i rs s = (res, s')"
  shows "reminders s' = reminders s \<and> storage s' = storage s \<and>
         nextHandle s \<le> nextHandle s' \<and>
         pending s' = pending s @ [nextHandle s..<nextHandle s']"
  using assms
proof (induction rs arbitrary: i s res s')
  case Nil
  then show ?case by simp
next
  case (Cons r rs)
  obtain res1 s1 where r1: "reschedule (fst (clock i)) (snd (clock i)) r s = (res1, s1)"
    by (cases "reschedule (fst (clock i)) (snd (clock i)) r s")
  from reschedule_cases [OF r1] show ?case
  proof
    assume "res1 = Inl TypeError \<and> s1 = s"
    with Cons.prems r1 show ?thesis by simp
  next
    assume "\<exists>ob tm. r = JObj ob \<and>
                  res1 = Inr (assign ''timeoutId'' (JNum (int (nextHandle s))) ob) \<and>
                  s1 = s\<lparr>timers := timers s @ [(nextHandle s, tm)],
                         nextHandle := Suc (nextHandle s)\<rparr>"
    then obtain ob tm where ok: "res1 = Inr (assign ''timeoutId'' (JNum (int (nextHandle s))) ob)"
      and s1: "s1 = s\<lparr>timers := timers s @ [(nextHandle s, tm)], nextHandle := Suc (nextHandle s)\<rparr>"
      by blast
    obtain res2 s2 where r2: "rescheduleAll clock (Suc i) rs s1 = (res2, s2)"
      by (cases "rescheduleAll clock (Suc i) rs s1")
    have s': "s' = s2"
      using Cons.prems r1 r2 ok by (simp split: sum.splits)
    from Cons.IH [OF r2] have ih: "reminders s2 = reminders s1" "storage s2 = storage s1"
      "nextHandle s1 \<le> nextHandle s2" "pending s2 = pending s1 @ [nextHandle s1..<nextHandle s2]"
      by simp_all
    have "pending s2 = pending s @ [nextHandle s..<nextHandle s2]"
      using ih(3,4) by (simp add: s1 pending_def upt_conv_Cons)
    then show ?thesis using ih s1 s' by simp
  qed
qed

lemma rescheduleAll_result:
  assumes "rescheduleAll clock i rs s = (Inr rs', s')"
  shows "map (\<lambda>r. getProp r ''timeoutId'') rs' =
           map (\<lambda>h. Some (JNum (int h))) [nextHandle s..<nextHandle s'] \<and>
         (list_all isRecord rs \<longrightarrow> list_all isReminder rs')"
  using assms
proof (induction rs arbitrary: i s rs' s')
  case Nil
  then show ?case by simp
next
  case (Cons r rs)
  obtain res1 s1 where r1: "reschedule (fst (clock i)) (snd (clock i)) r s = (res1, s1)"
    by (cases "reschedule (fst (clock i)) (snd (clock i)) r s")
  from reschedule_cases [OF r1] show ?case
  proof
    assume "res1 = Inl TypeError \<and> s1 = s"
    with Cons.prems r1 show ?thesis by simp
  next
    assume "\<exists>ob tm. r = JObj ob \<and>
                  res1 = Inr (assign ''timeoutId'' (JNum (int (nextHandle s))) ob) \<and>
                  s1 = s\<lparr>timers := timers s @ [(nextHandle s, tm)],
                         nextHandle := Suc (nextHandle s)\<rparr>"
    then obtain ob tm where r: "r = JObj ob"
      and ok: "res1 = Inr (assign ''timeoutId'' (JNum (int (nextHandle s))) ob)"
      and s1: "s1 = s\<lparr>timers := timers s @ [(nextHandle s, tm)], nextHandle := Suc (nextHandle s)\<rparr>"
      by blast
    obtain res2 s2 where r2: "rescheduleAll clock (Suc i) rs s1 = (res2, s2)"
      by (cases "rescheduleAll clock (Suc i) rs s1")
    from Cons.prems r1 r2 ok obtain rs2 where res2: "res2 = Inr rs2"
      and rs': "rs' = assign ''timeoutId'' (JNum (int (nextHandle s))) ob # rs2" and s': "s' = s2"
      by (auto split: sum.splits)
    from Cons.IH [OF r2 [unfolded res2]]
    have ih: "map (\<lambda>r. getProp r ''timeoutId'') rs2 =
                map (\<lambda>h. Some (JNum (int h))) [nextHandle s1..<nextHandle s2]"
      "list_all isRecord rs \<longrightarrow> list_all isReminder rs2"
      by simp_all
    have le: "nextHandle s1 \<le> nextHandle s2"
      using rescheduleAll_frame [OF r2] by simp
    have "map (\<lambda>r. getProp r ''timeoutId'') rs' =
            map (\<lambda>h. Some (JNum (int h))) [nextHandle s..<nextHandle s']"
      using ih(1) le by (simp add: rs' s' s1 getProp_assign upt_conv_Cons)
    moreover have "list_all isRecord (r # rs) \<longrightarrow> list_all isReminder rs'"
      using ih(2) by (simp add: rs' r isRecord_def isReminder_def keys_assign_new)
    ultimately show ?thesis by simp
  qed
qed

lemma loadEffect_cases:
  "(reminders (loadEffect clock s) = reminders s \<and> storage (loadEffect clock s) = storage s \<and>
    nextHandle s \<le> nextHandle (loadEffect clock s) \<and>
    pending (loadEffect clock s) = pending s @ [nextHandle s..<nextHandle (loadEffect clock s)]) \<or>
   (\<exists>rs rs' s'. storage s = Text (JArr rs) \<and> rescheduleAll clock 0 rs s = (Inr rs', s') \<and>
                 loadEffect clock s = s'\<lparr>reminders := rs'\<rparr>)"
proof (cases "storage s")
  case Falsy
  then show ?thesis by (simp add: loadEffect_def)
next
  case Unparsable
  then show ?thesis by (simp add: loadEffect_def logParseFailure_def pending_def)
next
  case (Text j)
  show ?thesis
  proof (cases j)
    case (JArr rs)
    obtain res s' where r: "rescheduleAll clock 0 rs s = (res, s')"
      by (cases "rescheduleAll clock 0 rs s")
    show ?thesis
    proof (cases res)
      case (Inl e)
      then show ?thesis
        using rescheduleAll_frame [OF r] Text JArr r
        by (simp add: loadEffect_def logParseFailure_def pending_def)
    next
      case (Inr rs')
      then show ?thesis using Text JArr r by (simp add: loadEffect_def)
    qed
  qed (simp_all add: Text loadEffect_def logParseFailure_def pending_def)
qed

subsection \<open>The pages the program builds from its own item\<close>

lemma ownPage_initial: "ownItem st \<Longrightarrow> ownPage (initial st)"
  by (simp add: ownPage_def initial_def)

lemma storage_removeReminder: "storage (removeReminder i s) = storage s"
  by (simp add: removeReminder_def clearTimeout_def split: option.splits json.splits)

lemma isRecord_omit: "isReminder r \<Longrightarrow> isRecord (JObj (omit ''timeoutId'' r))"
  by (simp add: isReminder_def isRecord_def keys_omit)

lemma ownItem_persisted:
  "list_all isReminder rs \<Longrightarrow> ownItem (Text (remindersToStore rs))"
  by (simp add: ownItem_def remindersToStore_def list_all_iff isRecord_omit)

lemma ownPage_step:
  assumes "ownPage s"
  shows "ownPage (step e s)"
proof (cases e)
  case (Typed n t)
  then show ?thesis using assms by (simp add: ownPage_def)
next
  case (Added now fresh stamp)
  then show ?thesis
    using assms by (simp add: ownPage_def addReminder_def setTimeout_def isReminder_def)
next
  case (Removed i)
  then show ?thesis
    using assms by (simp add: ownPage_def storage_removeReminder)
      (simp add: removeReminder_def list_all_iff)
next
  case (Loaded clock)
  from loadEffect_cases [of clock s] show ?thesis
  proof
    assume "reminders (loadEffect clock s) = reminders s \<and> storage (loadEffect clock s) = storage s \<and>
      nextHandle s \<le> nextHandle (loadEffect clock s) \<and>
      pending (loadEffect clock s) = pending s @ [nextHandle s..<nextHandle (loadEffect clock s)]"
    then show ?thesis using assms Loaded by (simp add: ownPage_def)
  next
    assume "\<exists>rs rs' s'. storage s = Text (JArr rs) \<and> rescheduleAll clock 0 rs s = (Inr rs', s') \<and>
                 loadEffect clock s = s'\<lparr>reminders := rs'\<rparr>"
    then obtain rs rs' s' where st: "storage s = Text (JArr rs)"
      and r: "rescheduleAll clock 0 rs s = (Inr rs', s')"
      and l: "loadEffect clock s = s'\<lparr>reminders := rs'\<rparr>"
      by blast
    have "list_all isRecord rs" using assms st by (simp add: ownPage_def ownItem_def)
    then have "list_all isReminder rs'" using rescheduleAll_result [OF r] by simp
    moreover have "storage s' = storage s" using rescheduleAll_frame [OF r] by simp
    ultimately show ?thesis using assms Loaded l by (simp add: ownPage_def)
  qed
next
  case (Persisted writable)
  then show ?thesis
    using assms by (simp add: ownPage_def persistEffect_def ownItem_persisted)
next
  case (Fired h)
  then show ?thesis using assms by (simp add: ownPage_def fire_def split: option.splits)
qed

lemma ownPage_run: "ownPage s \<Longrightarrow> ownPage (run es s)"
  unfolding run_def by (induction es arbitrary: s) (simp_all add: ownPage_step)

lemma written_persistEffect:
  "written (storage (persistEffect True s)) = map (\<lambda>r. JObj (omit ''timeoutId'' r)) (reminders s)"
  by (simp add: written_def persistEffect_def remindersToStore_def)

lemma no_handle_after_omit: "\<not> mentionsHandle (JObj (omit ''timeoutId'' r))"
  by (simp add: mentionsHandle_def keys_omit)

text \<open>
  C8. What the persist effect writes is an array with one object per reminder, none of
  which has a \<open>timeoutId\<close>, whatever the page. On every page the program reaches from
  an item it left itself (or from none), each written object has exactly the properties
  \<open>id\<close>, \<open>name\<close>, \<open>time\<close>.
\<close>

theorem persisted_record_fields:
  assumes "ownItem st"
  shows "storage (persistEffect True q) = Text (JArr (written (storage (persistEffect True q)))) \<and>
         length (written (storage (persistEffect True q))) = length (reminders q) \<and>
         \<not> list_ex mentionsHandle (written (storage (persistEffect True q))) \<and>
         list_all isRecord (written (storage (persistEffect True (run es (initial st)))))"
proof -
  have "ownPage (run es (initial st))"
    using assms by (simp add: ownPage_run ownPage_initial)
  then have a: "list_all isRecord (written (storage (persistEffect True (run es (initial st)))))"
    by (simp add: written_persistEffect ownPage_def list_all_iff isRecord_omit)
  have b: "\<not> list_ex mentionsHandle (written (storage (persistEffect True q)))"
    by (simp add: written_persistEffect list_ex_iff no_handle_after_omit)
  have c: "storage (persistEffect True q) = Text (JArr (written (storage (persistEffect True q))))"
    by (simp add: written_def persistEffect_def remindersToStore_def)
  have d: "length (written (storage (persistEffect True q))) = length (reminders q)"
    by (simp add: written_persistEffect)
  from a b c d show ?thesis by blast
qed

lemma run_two: "run [Typed ''Aspirin'' ''09:00'', Added 28800000 28800000 1700000000000] (initial Falsy) = aspirin"
  by (simp add: run_def aspirin_def)

theorem persisted_record_fields_witness:
  "written (storage (persistEffect True
      (run [Typed ''Aspirin'' ''09:00'', Added 28800000 28800000 1700000000000] (initial Falsy)))) =
     [JObj [(''id'', JNum 1700000000000), (''name'', JStr ''Aspirin''), (''time'', JStr ''09:00'')]] \<and>
   list_all isRecord (written (storage (persistEffect True
      (run [Typed ''Aspirin'' ''09:00'', Added 28800000 28800000 1700000000000] (initial Falsy))))) \<and>
   \<not> list_ex mentionsHandle (written (storage (persistEffect True aspirin)))"
proof -
  have o: "ownItem Falsy" by (simp add: ownItem_def)
  have w: "written (storage (persistEffect True aspirin)) =
             [JObj [(''id'', JNum 1700000000000), (''name'', JStr ''Aspirin''), (''time'', JStr ''09:00'')]]"
    by (simp add: written_persistEffect aspirin_page omit_def)
  from persisted_record_fields
         [OF o, of aspirin "[Typed ''Aspirin'' ''09:00'', Added 28800000 28800000 1700000000000]"]
  have a: "list_all isRecord (written (storage (persistEffect True aspirin)))"
    and b: "\<not> list_ex mentionsHandle (written (storage (persistEffect True aspirin)))"
    by (simp_all add: run_two)
  show ?thesis using a b w by (simp add: run_two)
qed

subsection \<open>One pending timeout for each reminder, until it fires\<close>

lemma one_with_handle:
  assumes "distinct (map fst ts)" and "h \<in> set (map fst ts)"
  shows "length (filter (\<lambda>p. fst p = h) ts) = 1"
  using assms
proof (induction ts)
  case Nil
  then show ?case by simp
next
  case (Cons t ts)
  show ?case
  proof (cases "fst t = h")
    case True
    then have "h \<notin> fst ` set ts" using Cons.prems by auto
    then have "filter (\<lambda>p. fst p = h) ts = []" by (auto simp: filter_empty_conv)
    with True show ?thesis by simp
  next
    case False
    then show ?thesis using Cons by auto
  qed
qed

lemma armed_oneTimerEach:
  assumes "armed s"
  shows "oneTimerEach s"
proof -
  have "length (timersOf s r) = 1" if r: "r \<in> set (reminders s)" for r
  proof -
    from assms r obtain h where h: "h \<in> set (pending s)"
      and t: "getProp r ''timeoutId'' = Some (JNum (int h))"
      by (auto simp: armed_def)
    have "timersOf s r = filter (\<lambda>p. fst p = h) (timers s)"
      by (auto simp: timersOf_def t intro: filter_cong)
    then show ?thesis
      using one_with_handle [of "timers s" h] assms h by (simp add: armed_def pending_def)
  qed
  then show ?thesis by (simp add: oneTimerEach_def list_all_iff)
qed

lemma armed_upt:
  assumes "distinct (pending s)" and "\<forall>h \<in> set (pending s). h < nextHandle s"
    and "nextHandle s \<le> n"
  shows "distinct (pending s @ [nextHandle s..<n]) \<and>
         (\<forall>h \<in> set (pending s @ [nextHandle s..<n]). h < n)"
  using assms by fastforce

lemma armed_added: "armed s \<Longrightarrow> armed (addReminder now fresh stamp s)"
  by (fastforce simp: armed_def addReminder_def setTimeout_def pending_def getProp_def image_iff)

lemma armed_removed:
  assumes "armed s"
  shows "armed (removeReminder i s)"
proof (cases "find (\<lambda>r. getProp r ''id'' = Some (JNum i)) (reminders s)")
  case None
  then have "removeReminder i s = s\<lparr>reminders := filter (\<lambda>r. getProp r ''id'' \<noteq> Some (JNum i)) (reminders s)\<rparr>"
    by (simp add: removeReminder_def)
  then show ?thesis
    using assms by (auto simp: armed_def pending_def distinct_map_filter)
next
  case (Some r0)
  then have r0: "r0 \<in> set (reminders s)" "getProp r0 ''id'' = Some (JNum i)"
    by (auto simp: find_Some_iff)
  from assms r0(1) obtain h0 where h0: "getProp r0 ''timeoutId'' = Some (JNum (int h0))"
    by (auto simp: armed_def)
  have eq: "removeReminder i s =
              s\<lparr>timers := filter (\<lambda>p. fst p \<noteq> h0) (timers s),
                reminders := filter (\<lambda>r. getProp r ''id'' \<noteq> Some (JNum i)) (reminders s)\<rparr>"
    by (simp add: removeReminder_def Some h0 clearTimeout_def)
  have inj: "inj_on (\<lambda>r. getProp r ''timeoutId'') (set (reminders s))"
    using assms by (simp add: armed_def distinct_map)
  have keep: "\<exists>h \<in> set (pending s). h \<noteq> h0 \<and> getProp r ''timeoutId'' = Some (JNum (int h))"
    if r: "r \<in> set (reminders s)" "getProp r ''id'' \<noteq> Some (JNum i)" for r
  proof -
    from assms r(1) obtain h where h: "h \<in> set (pending s)"
      "getProp r ''timeoutId'' = Some (JNum (int h))"
      by (auto simp: armed_def)
    have "r \<noteq> r0" using r(2) r0(2) by auto
    then have "getProp r ''timeoutId'' \<noteq> getProp r0 ''timeoutId''"
      using inj r(1) r0(1) by (auto dest: inj_onD)
    then have "h \<noteq> h0" using h(2) h0 by auto
    with h show ?thesis by blast
  qed
  have p: "pending (removeReminder i s) = filter (\<lambda>h. h \<noteq> h0) (pending s)"
    by (simp add: eq pending_def filter_map comp_def)
  have nh: "nextHandle (removeReminder i s) = nextHandle s"
    and rs: "reminders (removeReminder i s) =
               filter (\<lambda>r. getProp r ''id'' \<noteq> Some (JNum i)) (reminders s)"
    by (simp_all add: eq)
  show ?thesis
    unfolding armed_def
  proof (intro conjI ballI)
    show "distinct (pending (removeReminder i s))"
      using assms by (simp add: p armed_def)
    show "h < nextHandle (removeReminder i s)" if "h \<in> set (pending (removeReminder i s))" for h
      using that assms by (auto simp: p nh armed_def)
    show "distinct (map (\<lambda>r. getProp r ''timeoutId'') (reminders (removeReminder i s)))"
      using assms by (simp add: rs armed_def distinct_map_filter)
    show "\<exists>h \<in> set (pending (removeReminder i s)). getProp r ''timeoutId'' = Some (JNum (int h))"
      if "r \<in> set (reminders (removeReminder i s))" for r
      using keep [of r] that by (auto simp: rs p)
  qed
qed

lemma armed_loaded:
  assumes "armed s"
  shows "armed (loadEffect clock s)"
proof -
  have d: "distinct (pending s)" and b: "\<forall>h \<in> set (pending s). h < nextHandle s"
    using assms by (simp_all add: armed_def)
  from loadEffect_cases [of clock s] show ?thesis
  proof
    assume c: "reminders (loadEffect clock s) = reminders s \<and> storage (loadEffect clock s) = storage s \<and>
      nextHandle s \<le> nextHandle (loadEffect clock s) \<and>
      pending (loadEffect clock s) = pending s @ [nextHandle s..<nextHandle (loadEffect clock s)]"
    then have "nextHandle s \<le> nextHandle (loadEffect clock s)" by simp
    from armed_upt [OF d b this] c assms show ?thesis
      by (auto simp: armed_def)
  next
    assume "\<exists>rs rs' s'. storage s = Text (JArr rs) \<and> rescheduleAll clock 0 rs s = (Inr rs', s') \<and>
                 loadEffect clock s = s'\<lparr>reminders := rs'\<rparr>"
    then obtain rs rs' s' where r: "rescheduleAll clock 0 rs s = (Inr rs', s')"
      and l: "loadEffect clock s = s'\<lparr>reminders := rs'\<rparr>"
      by blast
    have le: "nextHandle s \<le> nextHandle s'"
      and p: "pending s' = pending s @ [nextHandle s..<nextHandle s']"
      using rescheduleAll_frame [OF r] by simp_all
    have t: "map (\<lambda>r. getProp r ''timeoutId'') rs' =
               map (\<lambda>h. Some (JNum (int h))) [nextHandle s..<nextHandle s']"
      using rescheduleAll_result [OF r] by simp
    have p': "pending (loadEffect clock s) = pending s @ [nextHandle s..<nextHandle s']"
      and n': "nextHandle (loadEffect clock s) = nextHandle s'"
      and r': "reminders (loadEffect clock s) = rs'"
      using p by (simp_all add: l pending_def)
    have "distinct (map (\<lambda>h. Some (JNum (int h))) [nextHandle s..<nextHandle s'])"
      by (simp add: distinct_map inj_on_def)
    then have dt: "distinct (map (\<lambda>r. getProp r ''timeoutId'') rs')"
      by (simp add: t)
    have each: "\<exists>h \<in> set (pending s @ [nextHandle s..<nextHandle s']).
                  getProp x ''timeoutId'' = Some (JNum (int h))"
      if x: "x \<in> set rs'" for x
    proof -
      have "getProp x ''timeoutId'' \<in> set (map (\<lambda>r. getProp r ''timeoutId'') rs')"
        using x by simp
      then have "getProp x ''timeoutId'' \<in> set (map (\<lambda>h. Some (JNum (int h))) [nextHandle s..<nextHandle s'])"
        by (simp only: t)
      then show ?thesis by auto
    qed
    show ?thesis
      unfolding armed_def p' n' r'
      using armed_upt [OF d b le] dt each by blast
  qed
qed

lemma armed_fields:
  assumes "armed s"
  shows "armed (s\<lparr>medName := n, medTime := t\<rparr>)"
    and "armed (s\<lparr>storage := st\<rparr>)" and "armed (s\<lparr>console := c\<rparr>)"
  using assms by (simp_all add: armed_def pending_def)

lemma armed_step:
  assumes "armed s" and "\<not> isFired e"
  shows "armed (step e s)"
proof (cases e)
  case (Persisted writable)
  then show ?thesis using assms(1) by (simp add: persistEffect_def armed_fields)
next
  case (Fired h)
  then show ?thesis using assms(2) by (simp add: isFired_def)
qed (simp_all add: assms(1) armed_fields armed_added armed_removed armed_loaded)

lemma armed_run:
  assumes "armed s" and "list_all (\<lambda>e. \<not> isFired e) es"
  shows "armed (run es s)"
  using assms unfolding run_def
  by (induction es arbitrary: s) (simp_all add: armed_step)

lemma armed_initial: "armed (initial st)"
  by (simp add: armed_def initial_def pending_def)

lemma unfired_oneTimerEach:
  assumes "list_all (\<lambda>e. \<not> isFired e) es"
  shows "oneTimerEach (run es (initial st))"
  using assms by (simp add: armed_oneTimerEach armed_run armed_initial)

text \<open>
  C2. After \<open>Aspirin\<close> at 09:00 was added at 08:00 and its timeout fired, the reminder
  is still in the collection and no timeout is pending: the page is not one with exactly
  one pending timeout for each reminder.
\<close>

theorem fired_reminder_has_no_timer:
  "run scenario (initial Falsy) =
     aspirin\<lparr>timers := [], notified := [Some (JStr ''Aspirin'')]\<rparr> \<and>
   reminders (run scenario (initial Falsy)) = reminders aspirin \<and>
   length (reminders aspirin) = 1 \<and>
   \<not> oneTimerEach (run scenario (initial Falsy))"
proof -
  have "run scenario (initial Falsy) = fire 1 aspirin"
    by (simp add: run_def scenario_def aspirin_def)
  then have r: "run scenario (initial Falsy) =
                  aspirin\<lparr>timers := [], notified := [Some (JStr ''Aspirin'')]\<rparr>"
    by (simp add: aspirin_page fire_def)
  show ?thesis
    unfolding r by (simp add: aspirin_page oneTimerEach_def timersOf_def)
qed

subsection \<open>Login\<close>

text \<open>
  C10. \<open>handleSubmit\<close> does not read the password: two submissions with the same
  username end in the same state, the user is logged in exactly when the trimmed username
  is not empty, and then as the trimmed username.
\<close>

theorem handleSubmit_ignores_password:
  assumes "username lp = username lp'"
  shows "handleSubmit lp a = handleSubmit lp' a \<and>
         handleSubmit lp a =
           (if trim (username lp) = [] then a
            else a\<lparr>currentUser := Some (trim (username lp)),
                   storedUser := Some (trim (username lp))\<rparr>)"
  using assms by (simp add: handleSubmit_def handleLogin_def)

theorem handleSubmit_ignores_password_witness:
  "handleSubmit \<lparr>username = '' alice '', password = ''secret''\<rparr>
                \<lparr>currentUser = None, storedUser = None\<rparr> =
     \<lparr>currentUser = Some ''alice'', storedUser = Some ''alice''\<rparr> \<and>
   handleSubmit \<lparr>username = '' alice '', password = ''''\<rparr>
                \<lparr>currentUser = None, storedUser = None\<rparr> =
     \<lparr>currentUser = Some ''alice'', storedUser = Some ''alice''\<rparr> \<and>
   handleSubmit \<lparr>username = ''  '', password = ''secret''\<rparr>
                \<lparr>currentUser = None, storedUser = None\<rparr> =
     \<lparr>currentUser = None, storedUser = None\<rparr>"
proof -
  have t: "trim '' alice '' = ''alice''" "trim ''  '' = []" by code_simp+
  show ?thesis
  using handleSubmit_ignores_password
          [of "\<lparr>username = '' alice '', password = ''secret''\<rparr>"
              "\<lparr>username = '' alice '', password = ''''\<rparr>"
              "\<lparr>currentUser = None, storedUser = None\<rparr>"]
        handleSubmit_ignores_password
          [of "\<lparr>username = ''  '', password = ''secret''\<rparr>"
              "\<lparr>username = ''  '', password = ''''\<rparr>"
              "\<lparr>currentUser = None, storedUser = None\<rparr>"]
  by (auto simp: t)
qed

end
